theory Spec2Isabelle
  imports Main "HOL-Library.Sublist"
begin

section \<open>JavaScript values used by the worker\<close>

text \<open>
  Strings are lists of characters; every element stands for one code unit of the
  JavaScript string, which is what \<open>length\<close> and \<open>slice\<close> count.  A value of type
  \<open>string | undefined | null\<close> is a \<open>string option\<close>.
\<close>

text \<open>\<open>Boolean(v)\<close> for such a value: absent and empty strings are falsy.\<close>

definition truthy :: "string option \<Rightarrow> bool" where
  "truthy v = (case v of None \<Rightarrow> False | Some s \<Rightarrow> s \<noteq> [])"

text \<open>\<open>v || d\<close> where \<open>d\<close> is a string.\<close>

definition orElse :: "string option \<Rightarrow> string \<Rightarrow> string" where
  "orElse v d = (case v of None \<Rightarrow> d | Some s \<Rightarrow> if s = [] then d else s)"

text \<open>\<open>Array.prototype.join\<close> on an array of strings.\<close>

fun join :: "string \<Rightarrow> string list \<Rightarrow> string" where
  "join sep [] = []"
| "join sep [x] = x"
| "join sep (x # y # ys) = x @ sep @ join sep (y # ys)"

text \<open>\<open>s.slice(0, n)\<close> for a non-negative \<open>n\<close>.\<close>

definition slice0 :: "nat \<Rightarrow> string \<Rightarrow> string" where
  "slice0 n s = take n s"

text \<open>\<open>[...].filter(Boolean)\<close> on an array of optional strings.\<close>

fun filterBoolean :: "string option list \<Rightarrow> string list" where
  "filterBoolean [] = []"
| "filterBoolean (None # vs) = filterBoolean vs"
| "filterBoolean (Some s # vs) = (if s = [] then filterBoolean vs else s # filterBoolean vs)"

text \<open>Decimal rendering of an integer inside a template literal.\<close>

fun showNat :: "nat \<Rightarrow> string" where
  "showNat n =
     (if n < 10 then [''0123456789'' ! n]
      else showNat (n div 10) @ [''0123456789'' ! (n mod 10)])"

declare showNat.simps [simp del]

definition showInt :: "int \<Rightarrow> string" where
  "showInt i = (if i < 0 then ''-'' @ showNat (nat (- i)) else showNat (nat i))"

text \<open>A nullable string inside a template literal: \<open>null\<close> prints as the word.\<close>

definition showNullable :: "string option \<Rightarrow> string" where
  "showNullable v = (case v of None \<Rightarrow> ''null'' | Some s \<Rightarrow> s)"

datatype error =
    Error string
  | GenerationError string
  | PrismaError string

section \<open>Provider resolver: \<open>getAIModel\<close>\<close>

text \<open>\<open>process.env\<close>, read as one snapshot.\<close>

type_synonym env = "string \<rightharpoonup> string"

text \<open>The value of a variable that a guard has found truthy.\<close>

definition envValue :: "env \<Rightarrow> string \<Rightarrow> string" where
  "envValue e k = (case e k of None \<Rightarrow> [] | Some s \<Rightarrow> s)"

text \<open>
  The handle returned by the provider factories, with the settings each one is built
  from: \<open>OpenAICompatible baseURL name apiKey modelId\<close>, \<open>Azure modelId\<close>,
  \<open>Anthropic modelId\<close>, \<open>Ollama baseURL modelId\<close> (structured outputs on),
  \<open>OpenRouter apiKey modelId\<close>, \<open>Perplexity modelId\<close>.
\<close>

datatype LanguageModel =
    OpenAICompatible string string string string
  | Azure string
  | Anthropic string
  | Ollama string string
  | OpenRouter string string
  | Perplexity string

text \<open>\<open>base.replace(/\/$/, "")\<close> and \<open>path.replace(/^\//, "")\<close>.\<close>

definition stripTrailingSlash :: "string \<Rightarrow> string" where
  "stripTrailingSlash s = (if s \<noteq> [] \<and> last s = CHR ''/'' then butlast s else s)"

definition stripLeadingSlash :: "string \<Rightarrow> string" where
  "stripLeadingSlash s = (case s of [] \<Rightarrow> [] | c # r \<Rightarrow> if c = CHR ''/'' then r else s)"

definition ensureValidURL :: "string \<Rightarrow> string \<Rightarrow> string" where
  "ensureValidURL base path = stripTrailingSlash base @ ''/'' @ stripLeadingSlash path"

definition getAIModel :: "env \<Rightarrow> error + LanguageModel" where
  "getAIModel e =
     (if truthy (e ''OPENAI_API_KEY'') \<and> truthy (e ''OPENAI_MODEL'') then
        Inr (OpenAICompatible
               (orElse (e ''CUSTOM_OPENAI_BASE_URL'') ''https://api.openai.com/v1'')
               (orElse (e ''CUSTOM_OPENAI_NAME'') ''openai'')
               (envValue e ''OPENAI_API_KEY'')
               (envValue e ''OPENAI_MODEL''))
      else if truthy (e ''AZURE_API_KEY'') \<and> truthy (e ''AZURE_RESOURCE_NAME'')
              \<and> truthy (e ''AZURE_MODEL'') then
        Inr (Azure (envValue e ''AZURE_MODEL''))
      else if truthy (e ''ANTHROPIC_API_KEY'') \<and> truthy (e ''ANTHROPIC_MODEL'') then
        Inr (Anthropic (envValue e ''ANTHROPIC_MODEL''))
      else if truthy (e ''NEXT_PUBLIC_OLLAMA_ENDPOINT_URL'') \<and> truthy (e ''OLLAMA_MODEL'') then
        Inr (Ollama (ensureValidURL (envValue e ''NEXT_PUBLIC_OLLAMA_ENDPOINT_URL'') ''api'')
                    (envValue e ''OLLAMA_MODEL''))
      else if truthy (e ''OPENROUTER_API_KEY'') \<and> truthy (e ''OPENROUTER_MODEL'') then
        Inr (OpenRouter (envValue e ''OPENROUTER_API_KEY'') (envValue e ''OPENROUTER_MODEL''))
      else if truthy (e ''PERPLEXITY_API_KEY'') then
        Inr (Perplexity (orElse (e ''PERPLEXITY_MODEL'') ''sonar-pro''))
      else Inl (Error ''No AI provider configured''))"

section \<open>Records of the store\<close>

text \<open>
  The columns the worker and the endpoint read or write.  Identifiers are Prisma
  \<open>Int\<close>s, \<open>updatedAt\<close> is a timestamp in milliseconds.
\<close>

record User =
  user_id :: int
  aiCollectionsEnabled :: bool

record Collection =
  col_id :: int
  col_name :: string
  col_description :: string
  ownerId :: int
  updatedAt :: int

record Link =
  link_id :: int
  link_name :: string
  link_description :: string
  url :: "string option"
  textContent :: "string option"
  collectionId :: int
  aiCollectionAssigned :: bool

text \<open>The relation loaded by \<open>include: { collection: { select: { id, name } } }\<close>.\<close>

record IncludedCollection =
  inc_id :: int
  inc_name :: string

record AssignmentContext =
  metaDescription :: "string option"
  pageContent :: "string option"

section \<open>Prompt builder: \<open>buildPrompt\<close>\<close>

definition collectionLine :: "Collection \<Rightarrow> string" where
  "collectionLine c =
     showInt (col_id c) @ '': '' @ col_name c
       @ (if col_description c \<noteq> [] then '' ('' @ col_description c @ '')'' else [])"

definition collectionList :: "Collection list \<Rightarrow> string" where
  "collectionList cs = join ''\<newline>-'' (map collectionLine cs)"

definition condensedContent :: "Link \<Rightarrow> AssignmentContext \<Rightarrow> string" where
  "condensedContent l ctx =
     slice0 2000
       (join ''\<newline>''
          (filterBoolean
             [Some (link_name l), Some (link_description l),
              metaDescription ctx, pageContent ctx]))"

text \<open>
  The parameter of type \<open>Link & { collection: { name } }\<close> is the pair of the row and
  its included collection.
\<close>

definition buildPrompt ::
    "Link \<times> IncludedCollection \<Rightarrow> Collection list \<Rightarrow> AssignmentContext \<Rightarrow> string" where
  \<open>buildPrompt lc cs ctx =
     ''You are a Linkwarden assistant that routes links into one of the existing collections.\<newline>''
     @ ''Pick exactly one collection id from the provided list. Prefer the best topical match.\<newline>''
     @ ''If nothing clearly matches, keep the current collection id ''
     @ showInt (collectionId (fst lc)) @ ''.\<newline>''
     @ ''\<newline>''
     @ ''Collections (id: name and optional description):\<newline>''
     @ ''-'' @ collectionList cs @ ''\<newline>''
     @ ''\<newline>''
     @ ''Link:\<newline>''
     @ ''- URL: '' @ showNullable (url (fst lc)) @ ''\<newline>''
     @ ''- Current collection: '' @ inc_name (snd lc) @ ''\<newline>''
     @ ''- Summary: '' @ condensedContent (fst lc) ctx @ ''\<newline>''
     @ ''\<newline>''
     @ ''Respond with only JSON in the form {"collectionId": <id from the list>}.''\<close>

section \<open>The store\<close>

text \<open>
  Tables are lists of rows in storage order.  The queries below are the Prisma calls
  the code makes, each with the filter, order and limit written at its call site.
\<close>

record database =
  users :: "User list"
  collections :: "Collection list"
  links :: "Link list"

text \<open>\<open>prisma.user.findUnique({ where: { id } })\<close>.\<close>

definition userFindUnique :: "int \<Rightarrow> database \<Rightarrow> User option" where
  "userFindUnique i db = find (\<lambda>u. user_id u = i) (users db)"

text \<open>
  \<open>prisma.link.findUnique({ where: { id }, include: { collection } })\<close>.  The relation
  is required: a row whose collection is missing makes the client raise.
\<close>

definition linkFindUnique ::
    "int \<Rightarrow> database \<Rightarrow> error + (Link \<times> IncludedCollection) option" where
  "linkFindUnique i db =
     (case find (\<lambda>l. link_id l = i) (links db) of
        None \<Rightarrow> Inr None
      | Some l \<Rightarrow>
          (case find (\<lambda>c. col_id c = collectionId l) (collections db) of
             None \<Rightarrow> Inl (PrismaError ''Inconsistent query result'')
           | Some c \<Rightarrow> Inr (Some (l, \<lparr>inc_id = col_id c, inc_name = col_name c\<rparr>))))"

text \<open>
  \<open>prisma.collection.findMany({ where: { ownerId }, orderBy: { updatedAt: "desc" },
  take: 25 })\<close>.  The rows keep all their columns here; the callers read only \<open>id\<close>,
  \<open>name\<close> and \<open>description\<close>.  Rows with equal timestamps stay in storage order.
\<close>

definition collectionFindMany :: "int \<Rightarrow> database \<Rightarrow> Collection list" where
  "collectionFindMany owner db =
     take 25 (sort_key (\<lambda>c. - updatedAt c) (filter (\<lambda>c. ownerId c = owner) (collections db)))"

text \<open>
  \<open>prisma.link.findMany({ where: { collection: { ownerId }, aiCollectionAssigned: false },
  take: 50 })\<close>.
\<close>

definition linkFindMany :: "int \<Rightarrow> database \<Rightarrow> Link list" where
  "linkFindMany owner db =
     take 50
       (filter
          (\<lambda>l. (case find (\<lambda>c. col_id c = collectionId l) (collections db) of
                   None \<Rightarrow> False
                 | Some c \<Rightarrow> ownerId c = owner)
               \<and> \<not> aiCollectionAssigned l)
          (links db))"

text \<open>The \<open>data\<close> argument of \<open>prisma.link.update\<close>: the columns to overwrite.\<close>

record LinkUpdateData =
  data_collectionId :: "int option"
  data_aiCollectionAssigned :: "bool option"

definition applyData :: "LinkUpdateData \<Rightarrow> Link \<Rightarrow> Link" where
  "applyData d l =
     (let l1 = (case data_collectionId d of None \<Rightarrow> l | Some c \<Rightarrow> l\<lparr>collectionId := c\<rparr>)
      in (case data_aiCollectionAssigned d of
            None \<Rightarrow> l1
          | Some b \<Rightarrow> l1\<lparr>aiCollectionAssigned := b\<rparr>))"

text \<open>
  \<open>prisma.link.update({ where: { id }, data })\<close>: raises when no row has the id, and
  when a new \<open>collectionId\<close> refers to no collection; otherwise returns the new row.
\<close>

definition linkUpdate :: "int \<Rightarrow> LinkUpdateData \<Rightarrow> database \<Rightarrow> (error + Link) \<times> database" where
  "linkUpdate i d db =
     (case find (\<lambda>l. link_id l = i) (links db) of
        None \<Rightarrow> (Inl (PrismaError ''Record to update not found''), db)
      | Some l \<Rightarrow>
          (case data_collectionId d of
             None \<Rightarrow>
               (Inr (applyData d l),
                db\<lparr>links := map (\<lambda>r. if link_id r = i then applyData d r else r) (links db)\<rparr>)
           | Some c \<Rightarrow>
               if c \<in> set (map col_id (collections db)) then
                 (Inr (applyData d l),
                  db\<lparr>links := map (\<lambda>r. if link_id r = i then applyData d r else r) (links db)\<rparr>)
               else (Inl (PrismaError ''Foreign key constraint failed''), db)))"

text \<open>Every link refers to a collection of the store (the foreign key of the schema).\<close>

definition fkIntegrity :: "database \<Rightarrow> bool" where
  "fkIntegrity db = list_all (\<lambda>l. collectionId l \<in> set (map col_id (collections db))) (links db)"

section \<open>Assignment resolver: \<open>autoAssignCollection\<close>\<close>

text \<open>
  \<open>generateObject\<close> with the schema \<open>{ collectionId: z.number().int() }\<close> is the external
  call: given the model handle and the prompt it either raises (the request failed, or
  the reply did not match the schema) or returns the integer of the validated object.
  It may answer differently each time, so it reads and updates a state \<open>'w\<close> of the
  outside world.
\<close>

type_synonym 'w generateObject = "LanguageModel \<Rightarrow> string \<Rightarrow> 'w \<Rightarrow> (error + int) \<times> 'w"

text \<open>
  The result is \<open>Inr None\<close> for \<open>undefined\<close>, \<open>Inr (Some c)\<close> for a returned collection
  id and \<open>Inl err\<close> for an exception that leaves the function.  \<open>getAIModel()\<close> is
  evaluated inside the \<open>try\<close> block, as an argument of the call.
\<close>

definition autoAssignCollection ::
    "'w generateObject \<Rightarrow> env \<Rightarrow> User \<Rightarrow> int \<Rightarrow> AssignmentContext \<Rightarrow> database \<Rightarrow> 'w
       \<Rightarrow> (error + int option) \<times> database \<times> 'w" where
  "autoAssignCollection generateObject e user linkId context db w =
     (if \<not> aiCollectionsEnabled user then (Inr None, db, w)
      else
        (case linkFindUnique linkId db of
           Inl err \<Rightarrow> (Inl err, db, w)
         | Inr None \<Rightarrow> (Inr None, db, w)
         | Inr (Some (link, col)) \<Rightarrow>
             if aiCollectionAssigned link then (Inr None, db, w)
             else
               (let cands = collectionFindMany (user_id user) db in
                if length cands = 0 then (Inr None, db, w)
                else
                  (let prompt = buildPrompt (link, col) cands context in
                   case getAIModel e of
                     Inl err \<Rightarrow> (Inr None, db, w)
                   | Inr model \<Rightarrow>
                       (case generateObject model prompt w of
                          (Inl err, w') \<Rightarrow> (Inr None, db, w')
                        | (Inr objectCollectionId, w') \<Rightarrow>
                            (let chosenId =
                                   (if objectCollectionId \<in> set (map col_id cands)
                                    then objectCollectionId else collectionId link)
                             in
                             if chosenId = collectionId link then
                               (case linkUpdate (link_id link)
                                       \<lparr>data_collectionId = None,
                                        data_aiCollectionAssigned = Some True\<rparr> db of
                                  (Inl err, db') \<Rightarrow> (Inl err, db', w')
                                | (Inr updated, db') \<Rightarrow> (Inr (Some (collectionId link)), db', w'))
                             else
                               (case linkUpdate (link_id link)
                                       \<lparr>data_collectionId = Some chosenId,
                                        data_aiCollectionAssigned = Some True\<rparr> db of
                                  (Inl err, db') \<Rightarrow> (Inl err, db', w')
                                | (Inr updated, db') \<Rightarrow>
                                    (Inr (Some (collectionId updated)), db', w'))))))))"

section \<open>Batch endpoint: \<open>handler\<close>\<close>

text \<open>
  The request as the handler sees it: the HTTP method and the result of \<open>verifyToken\<close>,
  which is a message when verification fails and the token's user id otherwise.
\<close>

record request =
  httpMethod :: string
  verifiedToken :: "string + int"

datatype body = Message string | Processed nat

record response =
  status :: nat
  json :: body

text \<open>The context the loop passes for one selected row.\<close>

definition batchContext :: "Link \<Rightarrow> AssignmentContext" where
  "batchContext link =
     \<lparr>metaDescription = Some (link_description link),
      pageContent = map_option (slice0 2000) (textContent link)\<rparr>"

text \<open>The \<open>for ... of\<close> loop; an exception of the resolver leaves the loop.\<close>

fun batchLoop ::
    "'w generateObject \<Rightarrow> env \<Rightarrow> User \<Rightarrow> Link list \<Rightarrow> nat \<Rightarrow> database \<Rightarrow> 'w
       \<Rightarrow> (error + nat) \<times> database \<times> 'w" where
  "batchLoop generateObject e user [] processed db w = (Inr processed, db, w)"
| "batchLoop generateObject e user (link # rest) processed db w =
     (case autoAssignCollection generateObject e user (link_id link) (batchContext link) db w of
        (Inl err, db', w') \<Rightarrow> (Inl err, db', w')
      | (Inr r, db', w') \<Rightarrow> batchLoop generateObject e user rest (processed + 1) db' w')"

text \<open>One iteration of the loop on the pair of the store and the outside world.\<close>

definition batchStep ::
    "'w generateObject \<Rightarrow> env \<Rightarrow> User \<Rightarrow> database \<times> 'w \<Rightarrow> Link \<Rightarrow> database \<times> 'w" where
  "batchStep generateObject e user s link =
     snd (autoAssignCollection generateObject e user (link_id link) (batchContext link)
            (fst s) (snd s))"

text \<open>The provider test of the endpoint: one of the six variables is set.\<close>

definition anyProviderKey :: "env \<Rightarrow> bool" where
  "anyProviderKey e =
     (truthy (e ''NEXT_PUBLIC_OLLAMA_ENDPOINT_URL'') \<or> truthy (e ''OPENAI_API_KEY'')
      \<or> truthy (e ''AZURE_API_KEY'') \<or> truthy (e ''ANTHROPIC_API_KEY'')
      \<or> truthy (e ''OPENROUTER_API_KEY'') \<or> truthy (e ''PERPLEXITY_API_KEY''))"

definition handler ::
    "'w generateObject \<Rightarrow> env \<Rightarrow> request \<Rightarrow> database \<Rightarrow> 'w
       \<Rightarrow> (error + response) \<times> database \<times> 'w" where
  "handler generateObject e req db w =
     (if httpMethod req \<noteq> ''POST'' then
        (Inr \<lparr>status = 405, json = Message ''Method not allowed.''\<rparr>, db, w)
      else
        (case verifiedToken req of
           Inl msg \<Rightarrow> (Inr \<lparr>status = 401, json = Message msg\<rparr>, db, w)
         | Inr tokenId \<Rightarrow>
             (case userFindUnique tokenId db of
                None \<Rightarrow> (Inr \<lparr>status = 404, json = Message ''User not found.''\<rparr>, db, w)
              | Some user \<Rightarrow>
                  if \<not> aiCollectionsEnabled user then
                    (Inr \<lparr>status = 400, json = Message ''AI collection routing is disabled.''\<rparr>,
                     db, w)
                  else if \<not> anyProviderKey e then
                    (Inr \<lparr>status = 400, json = Message ''No AI provider configured.''\<rparr>, db, w)
                  else
                    (case batchLoop generateObject e user (linkFindMany (user_id user) db) 0 db w of
                       (Inl err, db', w') \<Rightarrow> (Inl err, db', w')
                     | (Inr processed, db', w') \<Rightarrow>
                         (Inr \<lparr>status = 200, json = Processed processed\<rparr>, db', w')))))"

section \<open>Reference descriptions\<close>

text \<open>
  The provider resolver as a table: the slots in priority order, the variables each
  one needs to be non-empty, and the handle it builds.  \<open>firstMatch\<close> probes the table
  in order.  It is compared with \<open>getAIModel\<close> below.
\<close>

datatype slot =
  OpenAISlot | AzureSlot | AnthropicSlot | OllamaSlot | OpenRouterSlot | PerplexitySlot

definition slotOrder :: "slot list" where
  "slotOrder = [OpenAISlot, AzureSlot, AnthropicSlot, OllamaSlot, OpenRouterSlot, PerplexitySlot]"

fun slotRequires :: "slot \<Rightarrow> string list" where
  "slotRequires OpenAISlot = [''OPENAI_API_KEY'', ''OPENAI_MODEL'']"
| "slotRequires AzureSlot = [''AZURE_API_KEY'', ''AZURE_RESOURCE_NAME'', ''AZURE_MODEL'']"
| "slotRequires AnthropicSlot = [''ANTHROPIC_API_KEY'', ''ANTHROPIC_MODEL'']"
| "slotRequires OllamaSlot = [''NEXT_PUBLIC_OLLAMA_ENDPOINT_URL'', ''OLLAMA_MODEL'']"
| "slotRequires OpenRouterSlot = [''OPENROUTER_API_KEY'', ''OPENROUTER_MODEL'']"
| "slotRequires PerplexitySlot = [''PERPLEXITY_API_KEY'']"

fun slotHandle :: "env \<Rightarrow> slot \<Rightarrow> LanguageModel" where
  "slotHandle e OpenAISlot =
     OpenAICompatible
       (orElse (e ''CUSTOM_OPENAI_BASE_URL'') ''https://api.openai.com/v1'')
       (orElse (e ''CUSTOM_OPENAI_NAME'') ''openai'')
       (envValue e ''OPENAI_API_KEY'')
       (envValue e ''OPENAI_MODEL'')"
| "slotHandle e AzureSlot = Azure (envValue e ''AZURE_MODEL'')"
| "slotHandle e AnthropicSlot = Anthropic (envValue e ''ANTHROPIC_MODEL'')"
| "slotHandle e OllamaSlot =
     Ollama (ensureValidURL (envValue e ''NEXT_PUBLIC_OLLAMA_ENDPOINT_URL'') ''api'')
            (envValue e ''OLLAMA_MODEL'')"
| "slotHandle e OpenRouterSlot =
     OpenRouter (envValue e ''OPENROUTER_API_KEY'') (envValue e ''OPENROUTER_MODEL'')"
| "slotHandle e PerplexitySlot = Perplexity (orElse (e ''PERPLEXITY_MODEL'') ''sonar-pro'')"

definition eligible :: "env \<Rightarrow> slot \<Rightarrow> bool" where
  "eligible e s = list_all (\<lambda>k. truthy (e k)) (slotRequires s)"

definition firstMatch :: "env \<Rightarrow> error + LanguageModel" where
  "firstMatch e =
     (case find (eligible e) slotOrder of
        None \<Rightarrow> Inl (Error ''No AI provider configured'')
      | Some s \<Rightarrow> Inr (slotHandle e s))"

text \<open>
  The content block described field by field: a field that is absent or empty adds
  nothing, the first field kept starts the text, and every later one is appended
  after a newline.
\<close>

definition fieldText :: "string option \<Rightarrow> string" where
  "fieldText v = (case v of None \<Rightarrow> [] | Some s \<Rightarrow> s)"

definition appendField :: "string \<Rightarrow> string \<Rightarrow> string" where
  "appendField acc f = (if f = [] then acc else if acc = [] then f else acc @ ''\<newline>'' @ f)"

definition joinedFields :: "Link \<Rightarrow> AssignmentContext \<Rightarrow> string" where
  "joinedFields l ctx =
     foldl appendField []
       [link_name l, link_description l,
        fieldText (metaDescription ctx), fieldText (pageContent ctx)]"

text \<open>
  The store after the commit step for the link \<open>link\<close> loaded under id \<open>i\<close> with the
  chosen id \<open>chosen\<close>: the latch alone when the id is the link's own, the id and the
  latch otherwise.
\<close>

definition commit :: "int \<Rightarrow> Link \<Rightarrow> int \<Rightarrow> database \<Rightarrow> database" where
  "commit i link chosen db =
     db\<lparr>links :=
          map (\<lambda>r. if link_id r = i
                   then (if chosen = collectionId link
                         then r\<lparr>aiCollectionAssigned := True\<rparr>
                         else r\<lparr>collectionId := chosen, aiCollectionAssigned := True\<rparr>)
                   else r)
              (links db)\<rparr>"

text \<open>The columns of a link that the resolver never writes.\<close>

definition linkText :: "Link \<Rightarrow> int \<times> string \<times> string \<times> string option \<times> string option" where
  "linkText l = (link_id l, link_name l, link_description l, url l, textContent l)"

text \<open>\<open>haystack.includes(needle)\<close>: the needle occurs as a contiguous run.\<close>

definition stringIncludes :: "string \<Rightarrow> string \<Rightarrow> bool" where
  "stringIncludes haystack needle = sublist needle haystack"

text \<open>The variables of \<open>process.env\<close> that the provider resolver reads.\<close>

definition configVars :: "string list" where
  "configVars =
     concat (map slotRequires slotOrder)
       @ [''CUSTOM_OPENAI_BASE_URL'', ''CUSTOM_OPENAI_NAME'', ''PERPLEXITY_MODEL'']"

section \<open>Example data\<close>

text \<open>
  The scenario of the specification: a user with the feature on, who owns the
  collections 1 \<open>Recipes\<close> and 2 \<open>Work\<close>, and links that sit in collection 1.
\<close>

definition exampleUser :: User where
  "exampleUser = \<lparr>user_id = 1, aiCollectionsEnabled = True\<rparr>"

definition exampleCollections :: "Collection list" where
  "exampleCollections =
     [\<lparr>col_id = 1, col_name = ''Recipes'', col_description = [], ownerId = 1, updatedAt = 10\<rparr>,
      \<lparr>col_id = 2, col_name = ''Work'', col_description = ''job search'', ownerId = 1,
       updatedAt = 20\<rparr>]"

definition exampleLink :: "int \<Rightarrow> Link" where
  "exampleLink i =
     \<lparr>link_id = i, link_name = ''React job'',
      link_description = ''React job posting at a startup'',
      url = Some ''https://example.com/job'', textContent = None,
      collectionId = 1, aiCollectionAssigned = False\<rparr>"

definition exampleDb :: database where
  "exampleDb = \<lparr>users = [exampleUser], collections = exampleCollections, links = [exampleLink 7]\<rparr>"

definition exampleBatchDb :: database where
  "exampleBatchDb =
     \<lparr>users = [exampleUser], collections = exampleCollections,
      links = [exampleLink 7, exampleLink 8, exampleLink 9]\<rparr>"

definition exampleContext :: AssignmentContext where
  "exampleContext = \<lparr>metaDescription = None, pageContent = None\<rparr>"

definition exampleEnv :: env where
  "exampleEnv = [''OPENAI_API_KEY'' \<mapsto> ''k'', ''OPENAI_MODEL'' \<mapsto> ''gpt-4o-mini'']"

definition exampleRequest :: request where
  "exampleRequest = \<lparr>httpMethod = ''POST'', verifiedToken = Inr 1\<rparr>"

definition exampleDbMoved :: database where
  "exampleDbMoved =
     \<lparr>users = [exampleUser], collections = exampleCollections,
      links = [(exampleLink 7)\<lparr>collectionId := 2, aiCollectionAssigned := True\<rparr>]\<rparr>"

definition exampleKeyOnlyEnv :: env where
  "exampleKeyOnlyEnv = [''OPENAI_API_KEY'' \<mapsto> ''k'']"

definition exampleLongNameLink :: Link where
  "exampleLongNameLink =
     \<lparr>link_id = 7, link_name = replicate 2000 (CHR ''a''), link_description = ''d'',
      url = None, textContent = None, collectionId = 1, aiCollectionAssigned = False\<rparr>"

text \<open>A model that always answers \<open>c\<close>, one that always fails, and one that fails
  on its second call only (the state counts the calls made so far).\<close>

definition answering :: "int \<Rightarrow> unit generateObject" where
  "answering c model prompt w = (Inr c, w)"

definition failing :: "unit generateObject" where
  "failing model prompt w = (Inl (GenerationError ''request failed''), w)"

definition failingSecond :: "nat generateObject" where
  "failingSecond model prompt n =
     (if n = 1 then Inl (GenerationError ''request failed'') else Inr 2, n + 1)"

section \<open>Properties of the provider resolver\<close>

lemma getAIModel_reads:
  assumes "\<forall>k \<in> set configVars. e k = e' k"
  shows "getAIModel e = getAIModel e'"
  using assms by (simp add: configVars_def slotOrder_def getAIModel_def envValue_def)

text \<open>
  Claim C4, as stated, asks every slot to need both a key (or endpoint) and a model
  name.  The Perplexity slot does not: with only \<open>PERPLEXITY_API_KEY\<close> set the resolver
  returns the Perplexity handle for the default model \<open>sonar-pro\<close>.
\<close>

theorem getAIModel_slot_needs_model_counterexample:
  "getAIModel [''PERPLEXITY_API_KEY'' \<mapsto> ''k''] = Inr (Perplexity ''sonar-pro'')
   \<and> \<not> truthy ([''PERPLEXITY_API_KEY'' \<mapsto> ''k''] ''PERPLEXITY_MODEL'')"
  by (simp add: getAIModel_def truthy_def orElse_def)

text \<open>
  Claim C4, amended: \<open>getAIModel\<close> is the ordered first-match probe over the slot table
  (OpenAI-compatible, Azure, Anthropic, Ollama, OpenRouter, Perplexity), where a slot is
  eligible when all the variables \<open>slotRequires\<close> lists for it are non-empty; for the
  Perplexity slot that is the API key alone, the model name defaulting to \<open>sonar-pro\<close>.
  When no slot is eligible, and only then, it fails, with the error
  \<open>No AI provider configured\<close>.  The result depends only on the variables of
  \<open>configVars\<close>, so two resolutions under the same snapshot agree.
\<close>

theorem getAIModel_first_match:
  "getAIModel e = firstMatch e
   \<and> (getAIModel e = Inl (Error ''No AI provider configured'')
        \<longleftrightarrow> (\<forall>s \<in> set slotOrder. \<not> eligible e s))
   \<and> (\<forall>err. getAIModel e = Inl err \<longrightarrow> err = Error ''No AI provider configured'')
   \<and> (eligible e PerplexitySlot \<longleftrightarrow> truthy (e ''PERPLEXITY_API_KEY''))
   \<and> (\<forall>e'. (\<forall>k \<in> set configVars. e k = e' k) \<longrightarrow> getAIModel e' = getAIModel e)"
proof -
  have a: "getAIModel e = firstMatch e"
    by (simp add: getAIModel_def firstMatch_def slotOrder_def eligible_def)
  have b: "getAIModel e = Inl (Error ''No AI provider configured'')
        \<longleftrightarrow> (\<forall>s \<in> set slotOrder. \<not> eligible e s)"
    by (simp add: getAIModel_def slotOrder_def eligible_def)
  have c: "\<forall>err. getAIModel e = Inl err \<longrightarrow> err = Error ''No AI provider configured''"
    by (auto simp: getAIModel_def split: if_splits)
  have d: "eligible e PerplexitySlot \<longleftrightarrow> truthy (e ''PERPLEXITY_API_KEY'')"
    by (simp add: eligible_def)
  have f: "\<forall>e'. (\<forall>k \<in> set configVars. e k = e' k) \<longrightarrow> getAIModel e' = getAIModel e"
    using getAIModel_reads by metis
  from a b c d f show ?thesis by blast
qed

theorem getAIModel_first_match_witness:
  "getAIModel Map.empty = Inl (Error ''No AI provider configured'')
   \<and> firstMatch Map.empty = Inl (Error ''No AI provider configured'')
   \<and> list_all (\<lambda>s. \<not> eligible Map.empty s) slotOrder"
  using getAIModel_first_match [of Map.empty]
  by (simp add: getAIModel_def truthy_def list_all_iff)

section \<open>Properties of the prompt builder\<close>

lemma foldl_appendField:
  "foldl appendField acc (map fieldText vs)
     = (if filterBoolean vs = [] then acc
        else if acc = [] then join ''\<newline>'' (filterBoolean vs)
        else acc @ ''\<newline>'' @ join ''\<newline>'' (filterBoolean vs))"
proof (induction vs arbitrary: acc)
  case Nil
  then show ?case by simp
next
  case (Cons v vs)
  show ?case
  proof (cases v)
    case None
    then show ?thesis using Cons.IH [of acc] by (simp add: fieldText_def appendField_def)
  next
    case (Some s)
    show ?thesis
    proof (cases "filterBoolean vs")
      case Nil
      then show ?thesis using Some Cons.IH [of "appendField acc s"]
        by (simp add: fieldText_def appendField_def)
    next
      case (Cons x xs)
      then show ?thesis using Some Cons.IH [of "appendField acc s"]
        by (simp add: fieldText_def appendField_def)
    qed
  qed
qed

lemma joinedFields_join:
  "joinedFields l ctx
     = join ''\<newline>'' (filterBoolean [Some (link_name l), Some (link_description l),
                                    metaDescription ctx, pageContent ctx])"
proof -
  have "joinedFields l ctx
          = foldl appendField []
              (map fieldText [Some (link_name l), Some (link_description l),
                              metaDescription ctx, pageContent ctx])"
    by (simp add: joinedFields_def fieldText_def)
  also have "\<dots> = join ''\<newline>'' (filterBoolean [Some (link_name l), Some (link_description l),
                                    metaDescription ctx, pageContent ctx])"
    unfolding foldl_appendField by simp
  finally show ?thesis .
qed

lemma condensedContent_take: "condensedContent l ctx = take 2000 (joinedFields l ctx)"
  by (simp add: condensedContent_def slice0_def joinedFields_join)

text \<open>
  Claim C7: the content block of the prompt is the first 2000 characters of the text
  obtained from the link's name, its description, the meta-description and the page
  content, in this order, with absent and empty fields dropped and the others joined by
  newlines.  The cut is by position only (a prefix of the joined text, the whole of it
  when it is short enough), the block never exceeds 2000 characters, and it is the text
  the prompt carries after \<open>- Summary:\<close>.
\<close>

theorem condensedContent_spec:
  "condensedContent l ctx = take 2000 (joinedFields l ctx)
   \<and> length (condensedContent l ctx) \<le> 2000
   \<and> prefix (condensedContent l ctx) (joinedFields l ctx)
   \<and> (length (joinedFields l ctx) \<le> 2000 \<longrightarrow> condensedContent l ctx = joinedFields l ctx)
   \<and> (\<exists>before after. buildPrompt (l, c) cs ctx
          = before @ ''- Summary: '' @ condensedContent l ctx @ ''\<newline>'' @ after)"
proof -
  have a: "condensedContent l ctx = take 2000 (joinedFields l ctx)"
    by (rule condensedContent_take)
  have b: "length (condensedContent l ctx) \<le> 2000"
    by (simp add: a)
  have c: "prefix (condensedContent l ctx) (joinedFields l ctx)"
    by (simp add: a take_is_prefix)
  have d: "length (joinedFields l ctx) \<le> 2000 \<longrightarrow> condensedContent l ctx = joinedFields l ctx"
    by (simp add: a)
  have e: "\<exists>before after. buildPrompt (l, c) cs ctx
          = before @ ''- Summary: '' @ condensedContent l ctx @ ''\<newline>'' @ after"
    unfolding buildPrompt_def fst_conv snd_conv
    by (metis append.assoc)
  from a b c d e show ?thesis by blast
qed

theorem condensedContent_spec_witness:
  "length (joinedFields
             \<lparr>link_id = 7, link_name = ''React job'', link_description = [],
              url = Some ''https://example.com/job'', textContent = None,
              collectionId = 1, aiCollectionAssigned = False\<rparr>
             \<lparr>metaDescription = None, pageContent = Some ''Hiring''\<rparr>) \<le> 2000
   \<and> condensedContent
         \<lparr>link_id = 7, link_name = ''React job'', link_description = [],
          url = Some ''https://example.com/job'', textContent = None,
          collectionId = 1, aiCollectionAssigned = False\<rparr>
         \<lparr>metaDescription = None, pageContent = Some ''Hiring''\<rparr>
       = ''React job\<newline>Hiring''"
  using condensedContent_spec
          [of "\<lparr>link_id = 7, link_name = ''React job'', link_description = [],
                url = Some ''https://example.com/job'', textContent = None,
                collectionId = 1, aiCollectionAssigned = False\<rparr>"
              "\<lparr>metaDescription = None, pageContent = Some ''Hiring''\<rparr>"]
  by (simp add: joinedFields_def appendField_def fieldText_def)

section \<open>Properties of the store\<close>

lemma find_SomeD: "find P xs = Some x \<Longrightarrow> P x \<and> x \<in> set xs"
  by (induction xs) (auto split: if_splits)

lemma find_None_iff_set: "find P xs = None \<longleftrightarrow> (\<forall>x\<in>set xs. \<not> P x)"
  by (induction xs) auto

lemma find_col_Some:
  assumes "x \<in> set (map col_id cs)"
  shows "\<exists>k. find (\<lambda>k. col_id k = x) cs = Some k"
proof (cases "find (\<lambda>k. col_id k = x) cs")
  case None
  then show ?thesis using assms by (auto simp: find_None_iff_set)
next
  case (Some k)
  then show ?thesis by blast
qed

lemma find_map_update:
  assumes "\<And>r. link_id (f r) = link_id r"
  shows "find (\<lambda>l. link_id l = j) (map (\<lambda>r. if link_id r = i then f r else r) xs)
         = (if j = i then map_option f (find (\<lambda>l. link_id l = i) xs)
            else find (\<lambda>l. link_id l = j) xs)"
  using assms by (induction xs) auto

lemma applyData_latch:
  "applyData \<lparr>data_collectionId = None, data_aiCollectionAssigned = Some True\<rparr> l
     = l\<lparr>aiCollectionAssigned := True\<rparr>"
  by (simp add: applyData_def)

lemma applyData_move:
  "applyData \<lparr>data_collectionId = Some c, data_aiCollectionAssigned = Some True\<rparr> l
     = l\<lparr>collectionId := c, aiCollectionAssigned := True\<rparr>"
  by (simp add: applyData_def)

lemma linkFindUnique_SomeD:
  assumes "linkFindUnique i db = Inr (Some (l, c))"
  shows "find (\<lambda>l. link_id l = i) (links db) = Some l"
    and "link_id l = i" and "l \<in> set (links db)"
    and "collectionId l \<in> set (map col_id (collections db))"
  using assms
  by (force simp: linkFindUnique_def split: option.splits dest!: find_SomeD)+

lemma set_collectionFindMany:
  "set (collectionFindMany owner db) \<subseteq> {c \<in> set (collections db). ownerId c = owner}"
proof -
  have "set (collectionFindMany owner db)
          \<subseteq> set (sort_key (\<lambda>c. - updatedAt c) (filter (\<lambda>c. ownerId c = owner) (collections db)))"
    unfolding collectionFindMany_def by (rule set_take_subset)
  then show ?thesis by auto
qed

lemma candidate_ids_subset:
  "set (map col_id (collectionFindMany owner db)) \<subseteq> set (map col_id (collections db))"
  using set_collectionFindMany [of owner db] by auto

lemma length_collectionFindMany: "length (collectionFindMany owner db) \<le> 25"
  by (simp add: collectionFindMany_def)

lemma sorted_collectionFindMany:
  "sorted (map (\<lambda>c. - updatedAt c) (collectionFindMany owner db))"
  unfolding collectionFindMany_def
  by (simp add: take_map [symmetric] sorted_wrt_take del: take_map)

lemma autoAssign_complete:
  assumes en: "aiCollectionsEnabled user"
    and fu: "linkFindUnique linkId db = Inr (Some (link, col))"
    and nl: "\<not> aiCollectionAssigned link"
    and ne: "collectionFindMany (user_id user) db \<noteq> []"
    and gm: "getAIModel e = Inr m"
    and go: "gen m (buildPrompt (link, col) (collectionFindMany (user_id user) db) ctx) w = (Inr r, w')"
  shows "autoAssignCollection gen e user linkId ctx db w
          = (Inr (Some (if r \<in> set (map col_id (collectionFindMany (user_id user) db))
                        then r else collectionId link)),
             commit linkId link
               (if r \<in> set (map col_id (collectionFindMany (user_id user) db))
                then r else collectionId link) db,
             w')"
proof -
  note fs = linkFindUnique_SomeD [OF fu]
  show ?thesis
    using en fu nl ne gm go fs(1,2) candidate_ids_subset [of "user_id user" db]
    by (auto simp: autoAssignCollection_def Let_def linkUpdate_def commit_def
                   applyData_latch applyData_move)
qed

lemma autoAssign_cases:
  fixes gen :: "'w generateObject"
  obtains
    (skipped) "autoAssignCollection gen e user linkId ctx db w = (Inr None, db, w)"
      and "\<not> aiCollectionsEnabled user \<or> linkFindUnique linkId db = Inr None
           \<or> (\<exists>link col. linkFindUnique linkId db = Inr (Some (link, col))
                 \<and> (aiCollectionAssigned link \<or> collectionFindMany (user_id user) db = []
                      \<or> (\<exists>err. getAIModel e = Inl err)))"
  | (raised) err where "aiCollectionsEnabled user" and "linkFindUnique linkId db = Inl err"
      and "autoAssignCollection gen e user linkId ctx db w = (Inl err, db, w)"
  | (failed) link col m err w' where "aiCollectionsEnabled user"
      and "linkFindUnique linkId db = Inr (Some (link, col))"
      and "\<not> aiCollectionAssigned link"
      and "collectionFindMany (user_id user) db \<noteq> []"
      and "getAIModel e = Inr m"
      and "gen m (buildPrompt (link, col) (collectionFindMany (user_id user) db) ctx) w = (Inl err, w')"
      and "autoAssignCollection gen e user linkId ctx db w = (Inr None, db, w')"
  | (decided) link col m r w' where "aiCollectionsEnabled user"
      and "linkFindUnique linkId db = Inr (Some (link, col))"
      and "\<not> aiCollectionAssigned link"
      and "collectionFindMany (user_id user) db \<noteq> []"
      and "getAIModel e = Inr m"
      and "gen m (buildPrompt (link, col) (collectionFindMany (user_id user) db) ctx) w = (Inr r, w')"
      and "autoAssignCollection gen e user linkId ctx db w
            = (Inr (Some (if r \<in> set (map col_id (collectionFindMany (user_id user) db))
                          then r else collectionId link)),
               commit linkId link
                 (if r \<in> set (map col_id (collectionFindMany (user_id user) db))
                  then r else collectionId link) db,
               w')"
proof (cases "aiCollectionsEnabled user")
  case False
  then show ?thesis using skipped by (simp add: autoAssignCollection_def)
next
  case en: True
  show ?thesis
  proof (cases "linkFindUnique linkId db")
    case (Inl err)
    then show ?thesis using en raised by (simp add: autoAssignCollection_def)
  next
    case (Inr found)
    show ?thesis
    proof (cases found)
      case None
      then show ?thesis using en Inr skipped by (simp add: autoAssignCollection_def)
    next
      case (Some lc)
      obtain link col where lc: "lc = (link, col)" by (cases lc)
      have fu: "linkFindUnique linkId db = Inr (Some (link, col))"
        using Inr Some lc by simp
      show ?thesis
      proof (cases "aiCollectionAssigned link \<or> collectionFindMany (user_id user) db = []")
        case True
        then show ?thesis using en fu skipped by (auto simp: autoAssignCollection_def Let_def)
      next
        case nskip: False
        show ?thesis
        proof (cases "getAIModel e")
          case (Inl err)
          then show ?thesis using en fu nskip skipped
            by (auto simp: autoAssignCollection_def Let_def)
        next
          case gm: (Inr m)
          obtain reply w' where go:
            "gen m (buildPrompt (link, col) (collectionFindMany (user_id user) db) ctx) w = (reply, w')"
            by (cases "gen m (buildPrompt (link, col) (collectionFindMany (user_id user) db) ctx) w")
          show ?thesis
          proof (cases reply)
            case (Inl err)
            then show ?thesis using en fu nskip gm go failed [of link col m err w']
              by (auto simp: autoAssignCollection_def Let_def)
          next
            case (Inr r)
            then show ?thesis
              using en fu nskip gm go decided [of link col m r w']
                autoAssign_complete [of user linkId db link col e m gen ctx w r w']
              by auto
          qed
        qed
      qed
    qed
  qed
qed

lemma find_commit:
  assumes "find (\<lambda>l. link_id l = linkId) (links db) = Some link"
  shows "find (\<lambda>l. link_id l = linkId) (links (commit linkId link c db))
           = Some (link\<lparr>collectionId := c, aiCollectionAssigned := True\<rparr>)"
  using assms by (simp add: commit_def find_map_update)

lemma collections_commit: "collections (commit i link c db) = collections db"
  by (simp add: commit_def)

lemma users_commit: "users (commit i link c db) = users db"
  by (simp add: commit_def)

lemma linkFindUnique_commit:
  assumes fu: "linkFindUnique linkId db = Inr (Some (link, col))"
    and ok: "c \<in> set (map col_id (collections db)) \<or> c = collectionId link"
  shows "\<exists>col'. linkFindUnique linkId (commit linkId link c db)
           = Inr (Some (link\<lparr>collectionId := c, aiCollectionAssigned := True\<rparr>, col'))"
proof -
  note fs = linkFindUnique_SomeD [OF fu]
  have "c \<in> set (map col_id (collections db))"
    using ok fs(4) by auto
  then obtain k where "find (\<lambda>k. col_id k = c) (collections db) = Some k"
    using find_col_Some by blast
  then show ?thesis
    using find_commit [OF fs(1), of c]
    by (simp add: linkFindUnique_def collections_commit)
qed

lemma links_commit_rel:
  assumes "c \<in> S \<or> c = collectionId link"
    and "find (\<lambda>l. link_id l = i) (links db) = Some link"
  shows "list_all2 (\<lambda>l l'. link_id l' = link_id l \<and> (link_id l \<noteq> i \<longrightarrow> l' = l)
                        \<and> (collectionId l' = collectionId l \<or> collectionId l' \<in> S))
           (links db) (links (commit i link c db))"
  using assms
  by (auto simp: commit_def list_all2_map2 intro!: list.rel_refl_strong)

section \<open>Properties of the assignment resolver\<close>

lemma example_find: "linkFindUnique 7 exampleDb = Inr (Some (exampleLink 7, \<lparr>inc_id = 1, inc_name = ''Recipes''\<rparr>))"
  by (simp add: linkFindUnique_def exampleDb_def exampleLink_def exampleCollections_def)

lemma example_cands: "collectionFindMany 1 exampleDb = rev exampleCollections"
  by (simp add: collectionFindMany_def exampleDb_def exampleCollections_def)

lemma example_model: "getAIModel exampleEnv = Inr (OpenAICompatible ''https://api.openai.com/v1'' ''openai'' ''k'' ''gpt-4o-mini'')"
  by (simp add: getAIModel_def exampleEnv_def truthy_def orElse_def envValue_def)

lemma example_mem: "2 \<in> set (map col_id (collectionFindMany (user_id exampleUser) exampleDb))"
  by (simp add: exampleUser_def example_cands exampleCollections_def)

lemma example_commit: "commit 7 (exampleLink 7) 2 exampleDb = exampleDbMoved"
  by (simp add: commit_def exampleDb_def exampleDbMoved_def exampleLink_def)

lemma example_answer:
  "answering c (OpenAICompatible ''https://api.openai.com/v1'' ''openai'' ''k'' ''gpt-4o-mini'')
     (buildPrompt (exampleLink 7, \<lparr>inc_id = 1, inc_name = ''Recipes''\<rparr>)
        (collectionFindMany (user_id exampleUser) exampleDb) exampleContext) ()
   = (Inr c, ())"
  by (simp add: answering_def)

lemma example_enabled: "aiCollectionsEnabled exampleUser"
  by (simp add: exampleUser_def)

lemma example_unlatched: "\<not> aiCollectionAssigned (exampleLink 7)"
  by (simp add: exampleLink_def)

lemma example_nonempty: "collectionFindMany (user_id exampleUser) exampleDb \<noteq> []"
  by (simp add: exampleUser_def example_cands exampleCollections_def)

lemma example_run:
  "autoAssignCollection (answering 2) exampleEnv exampleUser 7 exampleContext exampleDb ()
     = (Inr (Some 2), exampleDbMoved, ())"
proof -
  have "autoAssignCollection (answering 2) exampleEnv exampleUser 7 exampleContext exampleDb ()
     = (Inr (Some (if 2 \<in> set (map col_id (collectionFindMany (user_id exampleUser) exampleDb))
                        then 2 else collectionId (exampleLink 7))),
             commit 7 (exampleLink 7)
               (if 2 \<in> set (map col_id (collectionFindMany (user_id exampleUser) exampleDb))
                then 2 else collectionId (exampleLink 7)) exampleDb,
             ())"
    using example_enabled example_find example_unlatched example_nonempty example_model
      example_answer [of 2]
    by (rule autoAssign_complete
          [where gen = "answering 2" and e = exampleEnv and user = exampleUser and linkId = 7
             and ctx = exampleContext and db = exampleDb and w = "()" and link = "exampleLink 7"
             and r = 2 and w' = "()"])
  then show ?thesis
    by (simp only: example_mem if_True example_commit)
qed

lemma example_run_failing:
  "failing (OpenAICompatible ''https://api.openai.com/v1'' ''openai'' ''k'' ''gpt-4o-mini'') p ()
     = (Inl (GenerationError ''request failed''), ())"
  by (simp add: failing_def)

text \<open>
  Claim C1: a decision cycle that reaches the classification step and gets the
  reply \<open>r\<close> ends as follows.  If \<open>r\<close> is the id of a candidate, the function returns
  \<open>r\<close> and the stored link has \<open>collectionId = r\<close> and the latch set.  If it is
  not, the function returns the collection id the link had before the call, the stored
  link keeps that id, and the latch is set all the same.
\<close>

theorem autoAssignCollection_decision:
  fixes gen :: "'w generateObject"
  assumes "aiCollectionsEnabled user"
    and "linkFindUnique linkId db = Inr (Some (link, col))"
    and "\<not> aiCollectionAssigned link"
    and "collectionFindMany (user_id user) db \<noteq> []"
    and "getAIModel e = Inr m"
    and "gen m (buildPrompt (link, col) (collectionFindMany (user_id user) db) ctx) w = (Inr r, w')"
  shows "case autoAssignCollection gen e user linkId ctx db w of
           (res, db', w'') \<Rightarrow>
             w'' = w'
             \<and> (r \<in> set (map col_id (collectionFindMany (user_id user) db)) \<longrightarrow>
                   res = Inr (Some r)
                   \<and> find (\<lambda>l. link_id l = linkId) (links db')
                       = Some (link\<lparr>collectionId := r, aiCollectionAssigned := True\<rparr>))
             \<and> (r \<notin> set (map col_id (collectionFindMany (user_id user) db)) \<longrightarrow>
                   res = Inr (Some (collectionId link))
                   \<and> find (\<lambda>l. link_id l = linkId) (links db')
                       = Some (link\<lparr>aiCollectionAssigned := True\<rparr>))"
proof -
  note fs = linkFindUnique_SomeD [OF assms(2)]
  have upd: "find (\<lambda>l. link_id l = linkId) (links (commit linkId link c db))
               = Some (if c = collectionId link then link\<lparr>aiCollectionAssigned := True\<rparr>
                       else link\<lparr>collectionId := c, aiCollectionAssigned := True\<rparr>)" for c
    using fs(1) by (simp add: commit_def find_map_update)
  have run: "autoAssignCollection gen e user linkId ctx db w
          = (Inr (Some (if r \<in> set (map col_id (collectionFindMany (user_id user) db))
                        then r else collectionId link)),
             commit linkId link
               (if r \<in> set (map col_id (collectionFindMany (user_id user) db))
                then r else collectionId link) db,
             w')"
    using assms by (rule autoAssign_complete)
  show ?thesis
    unfolding run by (auto simp: upd)
qed

theorem autoAssignCollection_decision_witness:
  "aiCollectionsEnabled exampleUser
   \<and> linkFindUnique 7 exampleDb = Inr (Some (exampleLink 7, \<lparr>inc_id = 1, inc_name = ''Recipes''\<rparr>))
   \<and> \<not> aiCollectionAssigned (exampleLink 7)
   \<and> collectionFindMany (user_id exampleUser) exampleDb \<noteq> []
   \<and> getAIModel exampleEnv
       = Inr (OpenAICompatible ''https://api.openai.com/v1'' ''openai'' ''k'' ''gpt-4o-mini'')
   \<and> 2 \<in> set (map col_id (collectionFindMany (user_id exampleUser) exampleDb))
   \<and> fst (autoAssignCollection (answering 2) exampleEnv exampleUser 7 exampleContext exampleDb ())
       = Inr (Some 2)
   \<and> find (\<lambda>l. link_id l = 7)
        (links (fst (snd (autoAssignCollection (answering 2) exampleEnv exampleUser 7
                            exampleContext exampleDb ()))))
       = Some ((exampleLink 7)\<lparr>collectionId := 2, aiCollectionAssigned := True\<rparr>)"
proof -
  note h1 = example_enabled and h3 = example_unlatched and h4 = example_nonempty
    and mem = example_mem
  from autoAssignCollection_decision
         [where gen = "answering 2" and e = exampleEnv and user = exampleUser and linkId = 7
            and ctx = exampleContext and db = exampleDb and w = "()" and link = "exampleLink 7"
            and r = 2 and w' = "()", OF h1 example_find h3 h4 example_model example_answer [of 2]]
       mem
  have "fst (autoAssignCollection (answering 2) exampleEnv exampleUser 7 exampleContext exampleDb ())
       = Inr (Some 2)
   \<and> find (\<lambda>l. link_id l = 7)
        (links (fst (snd (autoAssignCollection (answering 2) exampleEnv exampleUser 7
                            exampleContext exampleDb ()))))
       = Some ((exampleLink 7)\<lparr>collectionId := 2, aiCollectionAssigned := True\<rparr>)"
    by (auto split: prod.splits)
  with h1 example_find h3 h4 example_model mem show ?thesis by blast
qed

text \<open>
  Claim C2: on every path without a decision (the feature is off for the user, no link
  has the id, the link is latched already, the user has no collection, the provider
  cannot be resolved, or the structured-generation call or its validation fails) the
  function returns \<open>undefined\<close> and the store is the one it was given; no latch is
  set.
\<close>

theorem autoAssignCollection_no_decision:
  fixes gen :: "'w generateObject"
  assumes "\<not> aiCollectionsEnabled user
           \<or> linkFindUnique linkId db = Inr None
           \<or> (\<exists>link col. linkFindUnique linkId db = Inr (Some (link, col))
                 \<and> (aiCollectionAssigned link
                      \<or> collectionFindMany (user_id user) db = []
                      \<or> (\<exists>err. getAIModel e = Inl err)
                      \<or> (\<exists>m err w'. getAIModel e = Inr m
                            \<and> gen m (buildPrompt (link, col)
                                        (collectionFindMany (user_id user) db) ctx) w
                                = (Inl err, w'))))"
  shows "fst (autoAssignCollection gen e user linkId ctx db w) = Inr None
         \<and> fst (snd (autoAssignCollection gen e user linkId ctx db w)) = db"
  using assms
  by (auto simp: autoAssignCollection_def Let_def split: sum.splits)

theorem autoAssignCollection_no_decision_witness:
  "linkFindUnique 7 exampleDb = Inr (Some (exampleLink 7, \<lparr>inc_id = 1, inc_name = ''Recipes''\<rparr>))
   \<and> getAIModel exampleEnv
       = Inr (OpenAICompatible ''https://api.openai.com/v1'' ''openai'' ''k'' ''gpt-4o-mini'')
   \<and> fst (autoAssignCollection failing exampleEnv exampleUser 7 exampleContext exampleDb ())
       = Inr None
   \<and> fst (snd (autoAssignCollection failing exampleEnv exampleUser 7 exampleContext exampleDb ()))
       = exampleDb"
proof -
  have "\<exists>m err w'. getAIModel exampleEnv = Inr m
          \<and> failing m (buildPrompt (exampleLink 7, \<lparr>inc_id = 1, inc_name = ''Recipes''\<rparr>)
                        (collectionFindMany (user_id exampleUser) exampleDb) exampleContext) ()
              = (Inl err, w')"
    using example_model example_run_failing by blast
  with example_find
  have "\<not> aiCollectionsEnabled exampleUser
           \<or> linkFindUnique 7 exampleDb = Inr None
           \<or> (\<exists>link col. linkFindUnique 7 exampleDb = Inr (Some (link, col))
                 \<and> (aiCollectionAssigned link
                      \<or> collectionFindMany (user_id exampleUser) exampleDb = []
                      \<or> (\<exists>err. getAIModel exampleEnv = Inl err)
                      \<or> (\<exists>m err w'. getAIModel exampleEnv = Inr m
                            \<and> failing m (buildPrompt (link, col)
                                        (collectionFindMany (user_id exampleUser) exampleDb) exampleContext) ()
                                = (Inl err, w'))))"
    by blast
  from autoAssignCollection_no_decision
         [where gen = failing and e = exampleEnv and user = exampleUser and linkId = 7
            and ctx = exampleContext and db = exampleDb and w = "()", OF this]
       example_find example_model
  show ?thesis by blast
qed

text \<open>
  Claim C3: when a cycle completes and returns \<open>c\<close>, the link loaded under the given
  id is stored with \<open>collectionId = c\<close>, and \<open>c\<close> is the id of a candidate or the id
  the link had before; a new id is that of a collection owned by the requesting user.  The
  candidates are at most 25 collections of the store, all owned by that user, the most
  recently updated first.  Collections are not written, links with another id are
  unchanged, and no link moves to a collection outside the candidates.  Nothing is
  assumed about who owns the link.
\<close>

theorem autoAssignCollection_permitted:
  fixes gen :: "'w generateObject"
  assumes "autoAssignCollection gen e user linkId ctx db w = (Inr (Some c), db', w')"
  shows "(\<exists>link col. linkFindUnique linkId db = Inr (Some (link, col))
            \<and> find (\<lambda>l. link_id l = linkId) (links db')
                = Some (link\<lparr>collectionId := c, aiCollectionAssigned := True\<rparr>)
            \<and> (c \<in> set (map col_id (collectionFindMany (user_id user) db))
                 \<or> c = collectionId link)
            \<and> (c \<noteq> collectionId link \<longrightarrow>
                  (\<exists>k \<in> set (collections db). col_id k = c \<and> ownerId k = user_id user)))
         \<and> length (collectionFindMany (user_id user) db) \<le> 25
         \<and> (\<forall>k \<in> set (collectionFindMany (user_id user) db).
               k \<in> set (collections db) \<and> ownerId k = user_id user)
         \<and> sorted_wrt (\<lambda>a b. updatedAt b \<le> updatedAt a) (collectionFindMany (user_id user) db)
         \<and> collections db' = collections db
         \<and> list_all2 (\<lambda>l l'. link_id l' = link_id l \<and> (link_id l \<noteq> linkId \<longrightarrow> l' = l)
                          \<and> (collectionId l' = collectionId l
                               \<or> collectionId l' \<in> set (map col_id (collectionFindMany (user_id user) db))))
               (links db) (links db')"
proof -
  let ?cands = "collectionFindMany (user_id user) db"
  have len: "length ?cands \<le> 25" by (rule length_collectionFindMany)
  have own: "\<forall>k \<in> set ?cands. k \<in> set (collections db) \<and> ownerId k = user_id user"
    using set_collectionFindMany [of "user_id user" db] by auto
  have srt: "sorted_wrt (\<lambda>a b. updatedAt b \<le> updatedAt a) ?cands"
    using sorted_collectionFindMany [of "user_id user" db] by (simp add: sorted_map)
  show ?thesis
  proof (cases rule: autoAssign_cases [where gen = gen and e = e and user = user and linkId = linkId
      and ctx = ctx and db = db and w = w])
    case skipped
    then show ?thesis using assms by simp
  next
    case (raised err)
    then show ?thesis using assms by simp
  next
    case (failed link col m err w'')
    then show ?thesis using assms by simp
  next
    case (decided link col m r w'')
    let ?c = "if r \<in> set (map col_id ?cands) then r else collectionId link"
    from decided(7) assms have c: "c = ?c" and db': "db' = commit linkId link ?c db"
      by simp_all
    note fs = linkFindUnique_SomeD [OF decided(2)]
    have mem: "c \<in> set (map col_id ?cands) \<or> c = collectionId link"
      using c by auto
    have fnd: "find (\<lambda>l. link_id l = linkId) (links db')
                = Some (link\<lparr>collectionId := c, aiCollectionAssigned := True\<rparr>)"
      using find_commit [OF fs(1), of ?c] c db' by simp
    have owner: "c \<noteq> collectionId link \<longrightarrow>
                  (\<exists>k \<in> set (collections db). col_id k = c \<and> ownerId k = user_id user)"
      using mem own by auto
    have cols: "collections db' = collections db"
      using db' by (simp add: collections_commit)
    have rel: "list_all2 (\<lambda>l l'. link_id l' = link_id l \<and> (link_id l \<noteq> linkId \<longrightarrow> l' = l)
                          \<and> (collectionId l' = collectionId l
                               \<or> collectionId l' \<in> set (map col_id ?cands)))
               (links db) (links db')"
      using links_commit_rel [OF mem fs(1)] c db' by simp
    from decided(2) fnd mem owner len own srt cols rel show ?thesis by blast
  qed
qed

theorem autoAssignCollection_permitted_witness:
  "autoAssignCollection (answering 2) exampleEnv exampleUser 7 exampleContext exampleDb ()
     = (Inr (Some 2), exampleDbMoved, ())
   \<and> linkFindUnique 7 exampleDb = Inr (Some (exampleLink 7, \<lparr>inc_id = 1, inc_name = ''Recipes''\<rparr>))
   \<and> find (\<lambda>l. link_id l = 7) (links exampleDbMoved)
       = Some ((exampleLink 7)\<lparr>collectionId := 2, aiCollectionAssigned := True\<rparr>)
   \<and> 2 \<in> set (map col_id (collectionFindMany (user_id exampleUser) exampleDb))
   \<and> length (collectionFindMany (user_id exampleUser) exampleDb) \<le> 25
   \<and> collections exampleDbMoved = collections exampleDb"
proof -
  have c: "(2::int) \<noteq> collectionId (exampleLink 7)" by (simp add: exampleLink_def)
  from autoAssignCollection_permitted [OF example_run] example_find c
  show ?thesis using example_run by auto
qed

text \<open>
  Claim C8: after a run that completes its decision cycle for a link, a second run
  for the same link (whatever the user, context, configuration and model reply) returns
  \<open>undefined\<close> without calling the model and leaves the store as the first run left
  it: two runs end in the same state as one.
\<close>

theorem autoAssignCollection_idempotent:
  fixes gen :: "'w generateObject" and gen2 :: "'v generateObject"
  assumes "autoAssignCollection gen e user linkId ctx db w = (Inr (Some c), db1, w1)"
  shows "autoAssignCollection gen2 e2 user2 linkId ctx2 db1 w2 = (Inr None, db1, w2)"
proof (cases rule: autoAssign_cases [where gen = gen and e = e and user = user and linkId = linkId
      and ctx = ctx and db = db and w = w])
  case skipped
  then show ?thesis using assms by simp
next
  case (raised err)
  then show ?thesis using assms by simp
next
  case (failed link col m err w'')
  then show ?thesis using assms by simp
next
  case (decided link col m r w'')
  let ?c = "if r \<in> set (map col_id (collectionFindMany (user_id user) db)) then r else collectionId link"
  from decided(7) assms have db1: "db1 = commit linkId link ?c db"
    by simp
  have "?c \<in> set (map col_id (collections db)) \<or> ?c = collectionId link"
    using candidate_ids_subset [of "user_id user" db] by auto
  from linkFindUnique_commit [OF decided(2) this]
  obtain col' where "linkFindUnique linkId db1
           = Inr (Some (link\<lparr>collectionId := ?c, aiCollectionAssigned := True\<rparr>, col'))"
    using db1 by blast
  then show ?thesis
    by (simp add: autoAssignCollection_def)
qed

theorem autoAssignCollection_idempotent_witness:
  "autoAssignCollection (answering 2) exampleEnv exampleUser 7 exampleContext exampleDb ()
     = (Inr (Some 2), exampleDbMoved, ())
   \<and> autoAssignCollection (answering 1) exampleEnv exampleUser 7 exampleContext exampleDbMoved ()
     = (Inr None, exampleDbMoved, ())"
  using example_run
    autoAssignCollection_idempotent
      [where ?gen2.0 = "answering 1" and ?e2.0 = exampleEnv and ?user2.0 = exampleUser
         and ?ctx2.0 = exampleContext and ?w2.0 = "()", OF example_run]
  by simp


section \<open>Properties of the batch endpoint\<close>

lemma linkFindUnique_no_raise:
  assumes "fkIntegrity db"
  shows "linkFindUnique i db \<noteq> Inl err"
proof (cases "find (\<lambda>l. link_id l = i) (links db)")
  case None
  then show ?thesis by (simp add: linkFindUnique_def)
next
  case (Some l)
  then have "l \<in> set (links db)" by (auto dest: find_SomeD)
  with assms have "collectionId l \<in> set (map col_id (collections db))"
    by (simp add: fkIntegrity_def list_all_iff)
  then obtain k where "find (\<lambda>k. col_id k = collectionId l) (collections db) = Some k"
    using find_col_Some by blast
  with Some show ?thesis by (simp add: linkFindUnique_def)
qed

lemma fkIntegrity_commit:
  assumes "fkIntegrity db"
    and "c \<in> set (map col_id (collections db)) \<or> c = collectionId link"
  shows "fkIntegrity (commit i link c db)"
  using assms by (auto simp: fkIntegrity_def commit_def list_all_iff)

lemma autoAssign_total:
  fixes gen :: "'w generateObject"
  assumes fk: "fkIntegrity db"
  shows "\<exists>r db' w'. autoAssignCollection gen e user linkId ctx db w = (Inr r, db', w')
           \<and> fkIntegrity db'"
proof (cases rule: autoAssign_cases [where gen = gen and e = e and user = user and linkId = linkId
      and ctx = ctx and db = db and w = w])
  case skipped
  then show ?thesis using fk by simp
next
  case (raised err)
  then show ?thesis using linkFindUnique_no_raise [OF fk] by simp
next
  case (failed link col m err w')
  then show ?thesis using fk by simp
next
  case (decided link col m r w')
  let ?c = "if r \<in> set (map col_id (collectionFindMany (user_id user) db)) then r else collectionId link"
  have "?c \<in> set (map col_id (collections db)) \<or> ?c = collectionId link"
    using candidate_ids_subset [of "user_id user" db] by auto
  then have "fkIntegrity (commit linkId link ?c db)"
    using fk by (rule fkIntegrity_commit [rotated])
  with decided(7) show ?thesis by simp
qed

lemma autoAssign_no_provider:
  fixes gen :: "'w generateObject"
  assumes fk: "fkIntegrity db" and np: "getAIModel e = Inl err"
  shows "autoAssignCollection gen e user linkId ctx db w = (Inr None, db, w)"
proof (cases rule: autoAssign_cases [where gen = gen and e = e and user = user and linkId = linkId
      and ctx = ctx and db = db and w = w])
  case skipped
  then show ?thesis by simp
next
  case (raised err)
  then show ?thesis using linkFindUnique_no_raise [OF fk] by simp
next
  case (failed link col m err w')
  then show ?thesis using np by simp
next
  case (decided link col m r w')
  then show ?thesis using np by simp
qed

lemma batchLoop_total:
  fixes gen :: "'w generateObject"
  assumes "fkIntegrity db"
  shows "\<exists>db' w'. batchLoop gen e user ls n db w = (Inr (n + length ls), db', w')
           \<and> fkIntegrity db'
           \<and> (db', w') = foldl (batchStep gen e user) (db, w) ls"
  using assms
proof (induction ls arbitrary: n db w)
  case Nil
  then show ?case by simp
next
  case (Cons l ls)
  from autoAssign_total [OF Cons.prems, of gen e user "link_id l" "batchContext l" w]
  obtain r db1 w1 where
    step: "autoAssignCollection gen e user (link_id l) (batchContext l) db w = (Inr r, db1, w1)"
    and fk1: "fkIntegrity db1"
    by blast
  from Cons.IH [OF fk1, of "n + 1" w1] step show ?case by (simp add: batchStep_def)
qed

lemma batchLoop_no_provider:
  fixes gen :: "'w generateObject"
  assumes "fkIntegrity db" and "getAIModel e = Inl err"
  shows "batchLoop gen e user ls n db w = (Inr (n + length ls), db, w)"
  using assms
  by (induction ls arbitrary: n) (simp_all add: autoAssign_no_provider)

lemma no_key_no_provider:
  assumes "\<not> anyProviderKey e"
  shows "getAIModel e = Inl (Error ''No AI provider configured'')"
  using assms by (simp add: anyProviderKey_def getAIModel_def)

lemma userFindUnique_id: "userFindUnique uid db = Some user \<Longrightarrow> user_id user = uid"
  by (auto simp: userFindUnique_def dest: find_SomeD)

lemma length_linkFindMany: "length (linkFindMany owner db) \<le> 50"
  by (simp add: linkFindMany_def)

lemma set_linkFindMany:
  assumes "l \<in> set (linkFindMany owner db)"
  shows "l \<in> set (links db) \<and> \<not> aiCollectionAssigned l
     \<and> (\<exists>k \<in> set (collections db). col_id k = collectionId l \<and> ownerId k = owner)"
proof -
  from assms have "l \<in> set (filter
          (\<lambda>l. (case find (\<lambda>c. col_id c = collectionId l) (collections db) of
                   None \<Rightarrow> False
                 | Some c \<Rightarrow> ownerId c = owner)
               \<and> \<not> aiCollectionAssigned l)
          (links db))"
    unfolding linkFindMany_def by (rule in_set_takeD)
  then show ?thesis
    by (auto split: option.splits dest!: find_SomeD)
qed


lemma example_user_found: "userFindUnique 1 exampleBatchDb = Some exampleUser"
  by (simp add: userFindUnique_def exampleBatchDb_def exampleUser_def)

lemma example_any_key: "anyProviderKey exampleEnv"
  by (simp add: anyProviderKey_def exampleEnv_def truthy_def)

lemma example_batch_fk: "fkIntegrity exampleBatchDb"
  by (simp add: fkIntegrity_def exampleBatchDb_def exampleLink_def exampleCollections_def)

lemma example_batch_selected:
  "linkFindMany (user_id exampleUser) exampleBatchDb = [exampleLink 7, exampleLink 8, exampleLink 9]"
  by (simp add: linkFindMany_def exampleBatchDb_def exampleLink_def exampleCollections_def
        exampleUser_def)

lemma example_batch_latches:
  "map aiCollectionAssigned
     (links (fst (snd (handler failingSecond exampleEnv exampleRequest exampleBatchDb 0))))
   = [True, False, True]"
  by (simp add: handler_def exampleRequest_def userFindUnique_def exampleBatchDb_def
        exampleUser_def anyProviderKey_def exampleEnv_def truthy_def linkFindMany_def
        exampleLink_def exampleCollections_def autoAssignCollection_def linkFindUnique_def
        collectionFindMany_def getAIModel_def failingSecond_def linkUpdate_def applyData_def
        Let_def)


lemma example_request_post: "httpMethod exampleRequest = ''POST''"
  by (simp add: exampleRequest_def)

lemma example_request_token: "verifiedToken exampleRequest = Inr 1"
  by (simp add: exampleRequest_def)

lemma example_fk: "fkIntegrity exampleDb"
  by (simp add: fkIntegrity_def exampleDb_def exampleLink_def exampleCollections_def)

text \<open>
  Claim C6: for a \<open>POST\<close> request of an authenticated user who has the feature on, with
  one of the provider variables set, the endpoint selects the first 50 links, at most,
  that are not latched and whose collection the user owns, runs the resolver on them one
  after the other (each run starts from the store and the outside world the previous
  one left), and answers 200 with \<open>processed\<close> equal to the number of links selected:
  every link iterated counts, whatever its run did.
\<close>

theorem handler_processed:
  fixes gen :: "'w generateObject"
  assumes "httpMethod req = ''POST''"
    and "verifiedToken req = Inr uid"
    and "userFindUnique uid db = Some user"
    and "aiCollectionsEnabled user"
    and "anyProviderKey e"
    and "fkIntegrity db"
  shows "(\<exists>db' w'. handler gen e req db w
            = (Inr \<lparr>status = 200, json = Processed (length (linkFindMany (user_id user) db))\<rparr>,
               db', w')
          \<and> (db', w') = foldl (batchStep gen e user) (db, w) (linkFindMany (user_id user) db))
         \<and> user_id user = uid
         \<and> linkFindMany (user_id user) db
             = take 50 (filter (\<lambda>l. (case find (\<lambda>c. col_id c = collectionId l) (collections db) of
                                        None \<Rightarrow> False | Some c \<Rightarrow> ownerId c = user_id user)
                                    \<and> \<not> aiCollectionAssigned l) (links db))
         \<and> length (linkFindMany (user_id user) db) \<le> 50
         \<and> (\<forall>l \<in> set (linkFindMany (user_id user) db).
               l \<in> set (links db) \<and> \<not> aiCollectionAssigned l
               \<and> (\<exists>k \<in> set (collections db). col_id k = collectionId l \<and> ownerId k = user_id user))"
proof -
  from batchLoop_total [OF assms(6), of gen e user "linkFindMany (user_id user) db" 0 w]
  obtain db' w' where
    run: "batchLoop gen e user (linkFindMany (user_id user) db) 0 db w
            = (Inr (length (linkFindMany (user_id user) db)), db', w')"
    and fold: "(db', w') = foldl (batchStep gen e user) (db, w) (linkFindMany (user_id user) db)"
    by auto
  have h: "handler gen e req db w
            = (Inr \<lparr>status = 200, json = Processed (length (linkFindMany (user_id user) db))\<rparr>,
               db', w')"
    using assms(1-5) run by (simp add: handler_def)
  have sel: "linkFindMany (user_id user) db
             = take 50 (filter (\<lambda>l. (case find (\<lambda>c. col_id c = collectionId l) (collections db) of
                                        None \<Rightarrow> False | Some c \<Rightarrow> ownerId c = user_id user)
                                    \<and> \<not> aiCollectionAssigned l) (links db))"
    by (simp add: linkFindMany_def)
  have props: "\<forall>l \<in> set (linkFindMany (user_id user) db).
               l \<in> set (links db) \<and> \<not> aiCollectionAssigned l
               \<and> (\<exists>k \<in> set (collections db). col_id k = collectionId l \<and> ownerId k = user_id user)"
    using set_linkFindMany by blast
  from h fold userFindUnique_id [OF assms(3)] sel length_linkFindMany [of "user_id user" db] props
  show ?thesis by blast
qed

theorem handler_processed_witness:
  "httpMethod exampleRequest = ''POST''
   \<and> verifiedToken exampleRequest = Inr 1
   \<and> userFindUnique 1 exampleBatchDb = Some exampleUser
   \<and> aiCollectionsEnabled exampleUser
   \<and> anyProviderKey exampleEnv
   \<and> fkIntegrity exampleBatchDb
   \<and> fst (handler failingSecond exampleEnv exampleRequest exampleBatchDb 0)
       = Inr \<lparr>status = 200, json = Processed 3\<rparr>
   \<and> map aiCollectionAssigned
        (links (fst (snd (handler failingSecond exampleEnv exampleRequest exampleBatchDb 0))))
       = [True, False, True]"
proof -
  from handler_processed
         [where gen = failingSecond and w = 0, OF example_request_post example_request_token
            example_user_found example_enabled example_any_key example_batch_fk]
  have "fst (handler failingSecond exampleEnv exampleRequest exampleBatchDb 0)
       = Inr \<lparr>status = 200, json = Processed 3\<rparr>"
    by (auto simp: example_batch_selected)
  with example_request_post example_request_token example_user_found example_enabled
    example_any_key example_batch_fk example_batch_latches
  show ?thesis by blast
qed

text \<open>
  Claim C5, as stated, makes a failure of the provider resolver fatal to the batch
  call.  With \<open>OPENAI_API_KEY\<close> set and no model name, \<open>getAIModel\<close> fails with
  \<open>No AI provider configured\<close>, yet the endpoint answers 200 with \<open>processed = 1\<close>:
  the failure was caught inside the cycle of the link, which is left as it was.
\<close>

theorem handler_configuration_error_counterexample:
  "getAIModel exampleKeyOnlyEnv = Inl (Error ''No AI provider configured'')
   \<and> handler (answering 2) exampleKeyOnlyEnv exampleRequest exampleDb ()
       = (Inr \<lparr>status = 200, json = Processed 1\<rparr>, exampleDb, ())"
  by (simp add: handler_def exampleRequest_def userFindUnique_def exampleDb_def
        exampleUser_def anyProviderKey_def exampleKeyOnlyEnv_def truthy_def linkFindMany_def
        exampleLink_def exampleCollections_def autoAssignCollection_def linkFindUnique_def
        collectionFindMany_def getAIModel_def Let_def)

text \<open>
  Claim C5, amended: for a \<open>POST\<close> request of an authenticated user, the endpoint
  answers 400 with the store and the outside world untouched when the feature is off
  for the user, and when none of the six provider key or endpoint variables is set (in
  which case no provider can be resolved).  Otherwise it answers 200 with the processed
  count.  When one of the variables is set and still no provider can be resolved, the
  failure is caught in every link's cycle: the answer is 200 with the count of the links
  selected, and the store and the outside world are untouched.
\<close>

theorem handler_preconditions:
  fixes gen :: "'w generateObject"
  assumes "httpMethod req = ''POST''"
    and "verifiedToken req = Inr uid"
    and "userFindUnique uid db = Some user"
  shows "(\<not> aiCollectionsEnabled user \<longrightarrow>
            handler gen e req db w
              = (Inr \<lparr>status = 400, json = Message ''AI collection routing is disabled.''\<rparr>,
                 db, w))
         \<and> (aiCollectionsEnabled user \<and> \<not> anyProviderKey e \<longrightarrow>
              getAIModel e = Inl (Error ''No AI provider configured'')
              \<and> handler gen e req db w
                  = (Inr \<lparr>status = 400, json = Message ''No AI provider configured.''\<rparr>, db, w))
         \<and> (aiCollectionsEnabled user \<and> anyProviderKey e \<and> fkIntegrity db \<longrightarrow>
              (\<exists>db' w'. handler gen e req db w
                 = (Inr \<lparr>status = 200,
                         json = Processed (length (linkFindMany (user_id user) db))\<rparr>,
                    db', w')))
         \<and> (aiCollectionsEnabled user \<and> anyProviderKey e \<and> fkIntegrity db
              \<and> (\<exists>err. getAIModel e = Inl err) \<longrightarrow>
              handler gen e req db w
                = (Inr \<lparr>status = 200,
                        json = Processed (length (linkFindMany (user_id user) db))\<rparr>,
                   db, w))"
proof -
  have a: "\<not> aiCollectionsEnabled user \<longrightarrow>
            handler gen e req db w
              = (Inr \<lparr>status = 400, json = Message ''AI collection routing is disabled.''\<rparr>,
                 db, w)"
    using assms by (simp add: handler_def)
  have b: "aiCollectionsEnabled user \<and> \<not> anyProviderKey e \<longrightarrow>
              getAIModel e = Inl (Error ''No AI provider configured'')
              \<and> handler gen e req db w
                  = (Inr \<lparr>status = 400, json = Message ''No AI provider configured.''\<rparr>, db, w)"
    using assms no_key_no_provider [of e] by (simp add: handler_def)
  have c: "aiCollectionsEnabled user \<and> anyProviderKey e \<and> fkIntegrity db \<longrightarrow>
              (\<exists>db' w'. handler gen e req db w
                 = (Inr \<lparr>status = 200,
                         json = Processed (length (linkFindMany (user_id user) db))\<rparr>,
                    db', w'))"
  proof
    assume h: "aiCollectionsEnabled user \<and> anyProviderKey e \<and> fkIntegrity db"
    then have "fkIntegrity db" by simp
    from batchLoop_total [OF this, of gen e user "linkFindMany (user_id user) db" 0 w]
    obtain db' w' where
      "batchLoop gen e user (linkFindMany (user_id user) db) 0 db w
            = (Inr (length (linkFindMany (user_id user) db)), db', w')"
      by auto
    then show "\<exists>db' w'. handler gen e req db w
                 = (Inr \<lparr>status = 200,
                         json = Processed (length (linkFindMany (user_id user) db))\<rparr>,
                    db', w')"
      using assms h by (simp add: handler_def)
  qed
  have d: "aiCollectionsEnabled user \<and> anyProviderKey e \<and> fkIntegrity db
              \<and> (\<exists>err. getAIModel e = Inl err) \<longrightarrow>
              handler gen e req db w
                = (Inr \<lparr>status = 200,
                        json = Processed (length (linkFindMany (user_id user) db))\<rparr>,
                   db, w)"
    using assms by (auto simp: handler_def batchLoop_no_provider)
  from a b c d show ?thesis by blast
qed

theorem handler_preconditions_witness:
  "httpMethod exampleRequest = ''POST''
   \<and> verifiedToken exampleRequest = Inr 1
   \<and> userFindUnique 1 (exampleDb\<lparr>users := [exampleUser\<lparr>aiCollectionsEnabled := False\<rparr>]\<rparr>)
       = Some (exampleUser\<lparr>aiCollectionsEnabled := False\<rparr>)
   \<and> handler (answering 2) exampleEnv exampleRequest
        (exampleDb\<lparr>users := [exampleUser\<lparr>aiCollectionsEnabled := False\<rparr>]\<rparr>) ()
       = (Inr \<lparr>status = 400, json = Message ''AI collection routing is disabled.''\<rparr>,
          exampleDb\<lparr>users := [exampleUser\<lparr>aiCollectionsEnabled := False\<rparr>]\<rparr>, ())
   \<and> userFindUnique 1 exampleDb = Some exampleUser
   \<and> aiCollectionsEnabled exampleUser
   \<and> \<not> anyProviderKey Map.empty
   \<and> handler (answering 2) Map.empty exampleRequest exampleDb ()
       = (Inr \<lparr>status = 400, json = Message ''No AI provider configured.''\<rparr>, exampleDb, ())
   \<and> anyProviderKey exampleKeyOnlyEnv
   \<and> fkIntegrity exampleDb
   \<and> getAIModel exampleKeyOnlyEnv = Inl (Error ''No AI provider configured'')
   \<and> handler (answering 2) exampleKeyOnlyEnv exampleRequest exampleDb ()
       = (Inr \<lparr>status = 200, json = Processed 1\<rparr>, exampleDb, ())"
proof -
  have u0: "userFindUnique 1 (exampleDb\<lparr>users := [exampleUser\<lparr>aiCollectionsEnabled := False\<rparr>]\<rparr>)
       = Some (exampleUser\<lparr>aiCollectionsEnabled := False\<rparr>)"
    by (simp add: userFindUnique_def exampleUser_def)
  have u1: "userFindUnique 1 exampleDb = Some exampleUser"
    by (simp add: userFindUnique_def exampleDb_def exampleUser_def)
  have off: "\<not> aiCollectionsEnabled (exampleUser\<lparr>aiCollectionsEnabled := False\<rparr>)"
    by simp
  have nokey: "\<not> anyProviderKey Map.empty"
    by (simp add: anyProviderKey_def truthy_def)
  have key: "anyProviderKey exampleKeyOnlyEnv"
    by (simp add: anyProviderKey_def exampleKeyOnlyEnv_def truthy_def)
  have np: "getAIModel exampleKeyOnlyEnv = Inl (Error ''No AI provider configured'')"
    by (simp add: getAIModel_def exampleKeyOnlyEnv_def truthy_def)
  have sel: "length (linkFindMany (user_id exampleUser) exampleDb) = 1"
    by (simp add: linkFindMany_def exampleDb_def exampleLink_def exampleCollections_def
          exampleUser_def)
  note t0 = handler_preconditions
              [where gen = "answering 2" and e = exampleEnv and w = "()",
               OF example_request_post example_request_token u0]
  note t1 = handler_preconditions
              [where gen = "answering 2" and e = Map.empty and w = "()",
               OF example_request_post example_request_token u1]
  note t2 = handler_preconditions
              [where gen = "answering 2" and e = exampleKeyOnlyEnv and w = "()",
               OF example_request_post example_request_token u1]
  have r0: "handler (answering 2) exampleEnv exampleRequest
        (exampleDb\<lparr>users := [exampleUser\<lparr>aiCollectionsEnabled := False\<rparr>]\<rparr>) ()
       = (Inr \<lparr>status = 400, json = Message ''AI collection routing is disabled.''\<rparr>,
          exampleDb\<lparr>users := [exampleUser\<lparr>aiCollectionsEnabled := False\<rparr>]\<rparr>, ())"
    using t0 off by blast
  have r1: "handler (answering 2) Map.empty exampleRequest exampleDb ()
       = (Inr \<lparr>status = 400, json = Message ''No AI provider configured.''\<rparr>, exampleDb, ())"
    using t1 example_enabled nokey by blast
  have r2: "handler (answering 2) exampleKeyOnlyEnv exampleRequest exampleDb ()
       = (Inr \<lparr>status = 200, json = Processed 1\<rparr>, exampleDb, ())"
    using t2 example_enabled key example_fk np sel by auto
  from example_request_post example_request_token u0 r0 u1 example_enabled nokey r1 key
    example_fk np r2
  show ?thesis by blast
qed

section \<open>What the prompt depends on\<close>

lemma collectionList_reads:
  assumes "map (\<lambda>c. (col_id c, col_name c, col_description c)) cs
             = map (\<lambda>c. (col_id c, col_name c, col_description c)) cs'"
  shows "collectionList cs = collectionList cs'"
proof -
  have "map collectionLine cs = map collectionLine cs'"
    using assms
  proof (induction cs arbitrary: cs')
    case Nil
    then show ?case by simp
  next
    case (Cons c cs)
    then obtain c' cs'' where "cs' = c' # cs''" by (cases cs') auto
    with Cons show ?case by (simp add: collectionLine_def)
  qed
  then show ?thesis by (simp add: collectionList_def)
qed

lemma slice0_take: "slice0 n = take n"
  by (rule ext) (simp add: slice0_def)

lemma buildPrompt_reads:
  assumes "collectionId (fst lc) = collectionId (fst lc')"
    and "url (fst lc) = url (fst lc')"
    and "link_name (fst lc) = link_name (fst lc')"
    and "link_description (fst lc) = link_description (fst lc')"
    and "inc_name (snd lc) = inc_name (snd lc')"
    and "map (\<lambda>c. (col_id c, col_name c, col_description c)) cs
           = map (\<lambda>c. (col_id c, col_name c, col_description c)) cs'"
    and "metaDescription ctx = metaDescription ctx'"
    and "pageContent ctx = pageContent ctx'"
  shows "buildPrompt lc cs ctx = buildPrompt lc' cs' ctx'"
  using assms(1-5,7,8) collectionList_reads [OF assms(6)]
  by (simp add: buildPrompt_def condensedContent_def)

text \<open>
  Claim C9: \<open>buildPrompt\<close> is a function of its three arguments alone (it takes
  neither the store, nor the environment, nor the outside world, and returns only the
  text), so two calls with identical link, candidates and context give identical text.
  More precisely the text depends only on the link's \<open>collectionId\<close>, \<open>url\<close>,
  \<open>name\<close> and \<open>description\<close>, the name of its collection, the \<open>id\<close>, \<open>name\<close> and
  \<open>description\<close> of the candidates, and the two context fields.
\<close>

theorem buildPrompt_deterministic:
  "(lc = lc' \<and> cs = cs' \<and> ctx = ctx' \<longrightarrow> buildPrompt lc cs ctx = buildPrompt lc' cs' ctx')
   \<and> (collectionId (fst lc) = collectionId (fst lc')
        \<and> url (fst lc) = url (fst lc')
        \<and> link_name (fst lc) = link_name (fst lc')
        \<and> link_description (fst lc) = link_description (fst lc')
        \<and> inc_name (snd lc) = inc_name (snd lc')
        \<and> map (\<lambda>c. (col_id c, col_name c, col_description c)) cs
             = map (\<lambda>c. (col_id c, col_name c, col_description c)) cs'
        \<and> metaDescription ctx = metaDescription ctx'
        \<and> pageContent ctx = pageContent ctx'
       \<longrightarrow> buildPrompt lc cs ctx = buildPrompt lc' cs' ctx')"
  using buildPrompt_reads [of lc lc' cs cs' ctx ctx'] by blast

theorem buildPrompt_deterministic_witness:
  "buildPrompt (exampleLink 7, \<lparr>inc_id = 1, inc_name = ''Recipes''\<rparr>) exampleCollections exampleContext
     = buildPrompt (exampleLink 8, \<lparr>inc_id = 5, inc_name = ''Recipes''\<rparr>) exampleCollections exampleContext"
  using buildPrompt_deterministic
          [of "(exampleLink 7, \<lparr>inc_id = 1, inc_name = ''Recipes''\<rparr>)"
              "(exampleLink 8, \<lparr>inc_id = 5, inc_name = ''Recipes''\<rparr>)"
              exampleCollections exampleCollections exampleContext exampleContext]
  by (simp add: exampleLink_def)

section \<open>The context built by the batch endpoint\<close>

lemma linkText_commit: "map linkText (links (commit i link c db)) = map linkText (links db)"
  by (simp add: commit_def linkText_def)

lemma autoAssign_keeps_text:
  fixes gen :: "'w generateObject"
  shows "map linkText (links (fst (snd (autoAssignCollection gen e user i ctx db w))))
           = map linkText (links db)"
proof (cases rule: autoAssign_cases [where gen = gen and e = e and user = user and linkId = i
      and ctx = ctx and db = db and w = w])
  case skipped
  then show ?thesis by simp
next
  case (raised err)
  then show ?thesis by simp
next
  case (failed link col m err w')
  then show ?thesis by simp
next
  case (decided link col m r w')
  then show ?thesis by (simp add: linkText_commit)
qed

lemma batch_keeps_text:
  fixes gen :: "'w generateObject"
  shows "map linkText (links (fst (foldl (batchStep gen e user) (db, w) ls)))
           = map linkText (links db)"
proof (induction ls arbitrary: db w)
  case Nil
  then show ?case by simp
next
  case (Cons l ls)
  obtain db1 w1 where s: "batchStep gen e user (db, w) l = (db1, w1)"
    by (cases "batchStep gen e user (db, w) l")
  then have "db1 = fst (snd (autoAssignCollection gen e user (link_id l) (batchContext l) db w))"
    by (simp add: batchStep_def)
  then have "map linkText (links db1) = map linkText (links db)"
    by (simp add: autoAssign_keeps_text)
  with Cons.IH [of db1 w1] s show ?case by simp
qed

lemma batch_loaded_row:
  fixes gen :: "'w generateObject"
  assumes dist: "distinct (map link_id (links db))"
    and sel: "linkFindMany (user_id user) db = before @ l # after"
    and st: "(db', w') = foldl (batchStep gen e user) (db, w) before"
    and fu: "linkFindUnique (link_id l) db' = Inr (Some (l', col))"
  shows "link_name l' = link_name l \<and> link_description l' = link_description l"
proof -
  have "l \<in> set (linkFindMany (user_id user) db)" using sel by simp
  then have l: "l \<in> set (links db)" using set_linkFindMany by blast
  have "map linkText (links db') = map linkText (links db)"
    using batch_keeps_text [of gen e user db w before] st [symmetric] by simp
  moreover have "l' \<in> set (links db')" "link_id l' = link_id l"
    using linkFindUnique_SomeD [OF fu] by simp_all
  ultimately have "linkText l' \<in> set (map linkText (links db))"
    by (metis image_eqI list.set_map)
  then obtain l0 where l0: "l0 \<in> set (links db)" "linkText l0 = linkText l'"
    by auto
  then have "link_id l0 = link_id l"
    using \<open>link_id l' = link_id l\<close> by (simp add: linkText_def)
  with dist l l0(1) have "l0 = l"
    by (meson distinct_map inj_onD)
  with l0(2) show ?thesis by (simp add: linkText_def)
qed

lemma sublist_set: "sublist xs ys \<Longrightarrow> set xs \<subseteq> set ys"
  by (auto simp: sublist_def)

text \<open>
  Claim C10, as stated, finds the description twice in the content block of every link
  with a non-empty description.  For a link whose name has 2000 characters and whose
  description is \<open>d\<close>, the block is the name alone: the cap cuts both copies off.
\<close>

theorem batch_description_twice_counterexample:
  "link_description exampleLongNameLink \<noteq> []
   \<and> \<not> stringIncludes
         (condensedContent exampleLongNameLink (batchContext exampleLongNameLink))
         (link_description exampleLongNameLink @ ''\<newline>''
            @ link_description exampleLongNameLink)"
proof -
  have c: "condensedContent exampleLongNameLink (batchContext exampleLongNameLink)
             = replicate 2000 (CHR ''a'')"
    by (simp add: condensedContent_def batchContext_def exampleLongNameLink_def slice0_def)
  have "\<not> sublist ''d\<newline>d'' (replicate 2000 (CHR ''a''))"
    using sublist_set [of "''d\<newline>d''" "replicate 2000 (CHR ''a'')"] by auto
  moreover have "link_description exampleLongNameLink = ''d''"
    by (simp add: exampleLongNameLink_def)
  ultimately show ?thesis
    unfolding stringIncludes_def c by simp
qed

lemma joinedFields_batch:
  "joinedFields l' (batchContext l)
     = join ''\<newline>'' (filterBoolean [Some (link_name l'), Some (link_description l'),
                                    Some (link_description l),
                                    map_option (take 2000) (textContent l)])"
  by (simp add: joinedFields_join batchContext_def slice0_take)

lemma joined_twice:
  assumes "d \<noteq> []"
  shows "\<exists>before after.
           join ''\<newline>'' (filterBoolean [Some n, Some d, Some d, p])
             = before @ (d @ ''\<newline>'' @ d) @ after
           \<and> length before \<le> length n + 1"
proof (cases "n = []")
  case True
  show ?thesis
  proof (cases "filterBoolean [p]")
    case Nil
    then have "join ''\<newline>'' (filterBoolean [Some n, Some d, Some d, p]) = [] @ (d @ ''\<newline>'' @ d) @ []"
      using assms True by simp
    then show ?thesis by (metis length_0_conv le0 list.size(3))
  next
    case (Cons x xs)
    then have "join ''\<newline>'' (filterBoolean [Some n, Some d, Some d, p])
                 = [] @ (d @ ''\<newline>'' @ d) @ (''\<newline>'' @ join ''\<newline>'' (x # xs))"
      using assms True by simp
    then show ?thesis by (metis le0 list.size(3))
  qed
next
  case False
  show ?thesis
  proof (cases "filterBoolean [p]")
    case Nil
    then have "join ''\<newline>'' (filterBoolean [Some n, Some d, Some d, p])
                 = (n @ ''\<newline>'') @ (d @ ''\<newline>'' @ d) @ []"
      using assms False by simp
    moreover have "length (n @ ''\<newline>'') \<le> length n + 1" by simp
    ultimately show ?thesis by blast
  next
    case (Cons x xs)
    then have "join ''\<newline>'' (filterBoolean [Some n, Some d, Some d, p])
                 = (n @ ''\<newline>'') @ (d @ ''\<newline>'' @ d) @ (''\<newline>'' @ join ''\<newline>'' (x # xs))"
      using assms False by simp
    moreover have "length (n @ ''\<newline>'') \<le> length n + 1" by simp
    ultimately show ?thesis by blast
  qed
qed

lemma sublist_take:
  assumes "ys = before @ xs @ after" and "length before + length xs \<le> k"
  shows "sublist xs (take k ys)"
proof -
  have "take k ys = before @ xs @ take (k - length before - length xs) after"
    using assms by simp
  then show ?thesis unfolding sublist_def by blast
qed

text \<open>
  Claim C10, amended: the loop passes the selected row's description as
  \<open>metaDescription\<close> and the first 2000 characters of its text content as
  \<open>pageContent\<close>.  For the row \<open>l'\<close> the resolver loads, which has the same
  description (\<open>batch_loaded_row\<close>), a non-empty description occurs twice, as two
  consecutive segments joined by a newline, in the joined text before the cap; the
  content block is the first 2000 characters of that text, and holds both copies
  whenever the name, two copies of the description and two newlines fit in 2000
  characters.
\<close>

theorem batch_description_twice:
  assumes "link_description l' = link_description l"
  shows "metaDescription (batchContext l) = Some (link_description l)
         \<and> pageContent (batchContext l) = map_option (take 2000) (textContent l)
         \<and> (\<forall>p. pageContent (batchContext l) = Some p \<longrightarrow> length p \<le> 2000)
         \<and> condensedContent l' (batchContext l) = take 2000 (joinedFields l' (batchContext l))
         \<and> (link_description l \<noteq> [] \<longrightarrow>
               stringIncludes (joinedFields l' (batchContext l))
                 (link_description l @ ''\<newline>'' @ link_description l))
         \<and> (link_description l \<noteq> []
              \<and> length (link_name l') + 2 * length (link_description l) + 2 \<le> 2000 \<longrightarrow>
               stringIncludes (condensedContent l' (batchContext l))
                 (link_description l @ ''\<newline>'' @ link_description l))"
proof -
  let ?d = "link_description l"
  let ?j = "joinedFields l' (batchContext l)"
  have a: "metaDescription (batchContext l) = Some ?d"
    by (simp add: batchContext_def)
  have b: "pageContent (batchContext l) = map_option (take 2000) (textContent l)"
    by (simp add: batchContext_def slice0_take)
  have c: "\<forall>p. pageContent (batchContext l) = Some p \<longrightarrow> length p \<le> 2000"
    by (auto simp: b)
  have d: "condensedContent l' (batchContext l) = take 2000 ?j"
    by (rule condensedContent_take)
  have tw: "?d \<noteq> [] \<Longrightarrow> \<exists>before after. ?j = before @ (?d @ ''\<newline>'' @ ?d) @ after
              \<and> length before \<le> length (link_name l') + 1"
    unfolding joinedFields_batch assms by (rule joined_twice)
  have e: "?d \<noteq> [] \<longrightarrow> stringIncludes ?j (?d @ ''\<newline>'' @ ?d)"
    using tw unfolding stringIncludes_def sublist_def by blast
  have f: "?d \<noteq> [] \<and> length (link_name l') + 2 * length ?d + 2 \<le> 2000 \<longrightarrow>
             stringIncludes (condensedContent l' (batchContext l)) (?d @ ''\<newline>'' @ ?d)"
  proof
    assume h: "?d \<noteq> [] \<and> length (link_name l') + 2 * length ?d + 2 \<le> 2000"
    then obtain before after where
      j: "?j = before @ (?d @ ''\<newline>'' @ ?d) @ after"
      and lb: "length before \<le> length (link_name l') + 1"
      using tw by blast
    have "length before + length (?d @ ''\<newline>'' @ ?d) \<le> 2000"
      using h lb by simp
    from sublist_take [OF j this]
    show "stringIncludes (condensedContent l' (batchContext l)) (?d @ ''\<newline>'' @ ?d)"
      by (simp add: d stringIncludes_def)
  qed
  from a b c d e f show ?thesis by blast
qed

theorem batch_description_twice_witness:
  "link_description (exampleLink 7) = link_description (exampleLink 7)
   \<and> link_description (exampleLink 7) \<noteq> []
   \<and> stringIncludes (condensedContent (exampleLink 7) (batchContext (exampleLink 7)))
        (''React job posting at a startup'' @ ''\<newline>'' @ ''React job posting at a startup'')"
proof -
  have h: "link_description (exampleLink 7) = link_description (exampleLink 7)" by simp
  have n: "link_description (exampleLink 7) \<noteq> []" by (simp add: exampleLink_def)
  have s: "length (link_name (exampleLink 7)) + 2 * length (link_description (exampleLink 7)) + 2 \<le> 2000"
    by (simp add: exampleLink_def)
  have d: "link_description (exampleLink 7) = ''React job posting at a startup''"
    by (simp add: exampleLink_def)
  from batch_description_twice [OF h] n s
  have "stringIncludes (condensedContent (exampleLink 7) (batchContext (exampleLink 7)))
        (link_description (exampleLink 7) @ ''\<newline>'' @ link_description (exampleLink 7))"
    by blast
  then show ?thesis using h n unfolding d by simp
qed


end
